theory Spec2Isabelle
  imports Main
begin

section \<open>JavaScript values and strings\<close>

text \<open>
  The logging middleware is JavaScript. A JavaScript string is modelled as a \<^typ>\<open>string\<close>,
  one \<^typ>\<open>char\<close> for each UTF-16 code unit below 256 (the Latin-1 range), so that
  \<^term>\<open>length\<close> is the source's \<^verbatim>\<open>.length\<close>. An argument of \<^verbatim>\<open>Log\<close> is either a string or
  a value that is not a string and has no \<^verbatim>\<open>toLowerCase\<close> method (\<^verbatim>\<open>undefined\<close>, \<^verbatim>\<open>null\<close>,
  a number, a boolean, a plain object).
\<close>

datatype jsarg = Str string | NonStr

text \<open>
  \<^verbatim>\<open>String.prototype.toLowerCase\<close> on the Latin-1 range: the letters A-Z and the accented
  capitals U+00C0 to U+00DE (the multiplication sign U+00D7 apart) move up by 32.
\<close>

definition lower_char :: "char \<Rightarrow> char" where
  "lower_char c =
     (let n = (of_char c :: nat)
      in if (65 \<le> n \<and> n \<le> 90) \<or> (192 \<le> n \<and> n \<le> 222 \<and> n \<noteq> 215)
         then char_of (n + 32) else c)"

definition toLowerCase :: "string \<Rightarrow> string" where
  "toLowerCase s = map lower_char s"

text \<open>
  \<^verbatim>\<open>String.prototype.trim\<close> removes white space and line terminators from both ends. Below
  256 these are TAB, LF, VT, FF, CR, SPACE and the no-break space U+00A0.
\<close>

definition js_whitespace :: "char \<Rightarrow> bool" where
  "js_whitespace c = ((of_char c :: nat) \<in> {9, 10, 11, 12, 13, 32, 160})"

definition trim :: "string \<Rightarrow> string" where
  "trim s = rev (dropWhile js_whitespace (rev (dropWhile js_whitespace s)))"

section \<open>Errors\<close>

text \<open>
  Every \<^verbatim>\<open>throw\<close> and every \<^verbatim>\<open>reject\<close> of the two modules is a constructor; of the
  text of a message only the data is kept: the rejected argument, the length of the
  message, the key of the missing credential (the message prints the key in capitals),
  the status code, the error that \<^verbatim>\<open>getAuthToken\<close> wraps. \<open>TimeoutOutOfRange\<close> and
  \<open>InvalidHeaderChar\<close> are the errors \<^verbatim>\<open>http.request\<close> throws before it sends anything.
\<close>

datatype js_error =
    TypeError
  | InvalidStack string
  | InvalidLevel string
  | InvalidPackageBackend string
  | InvalidPackageFrontend string
  | MessageNotNonEmptyString
  | MessageTooLong nat
  | MissingEnvironmentVariable string
  | InvalidUrl
  | AuthStatusFailed nat
  | AuthParseFailed
  | AuthRequestFailed
  | AuthRequestTimeout
  | AuthResponseMissingFields
  | AuthenticationFailed js_error
  | TokenNotAcquired
  | TimeoutOutOfRange int
  | InvalidHeaderChar
  | LogStatusFailed nat
  | LogParseFailed
  | LogRequestFailed
  | LogRequestTimeout

text \<open>
  What awaiting a promise comes to: it resolves to a value, it is rejected with an error,
  or it never settles and the caller waits for ever.
\<close>

datatype 'a completion = Resolved 'a | Rejected js_error | Pending

fun is_Resolved :: "'a completion \<Rightarrow> bool" where
  "is_Resolved (Resolved v) = True"
| "is_Resolved c = False"

fun is_Rejected :: "'a completion \<Rightarrow> bool" where
  "is_Rejected (Rejected e) = True"
| "is_Rejected c = False"

text \<open>The spec's error classes of the validator, as sets of the errors above.\<close>

fun is_InvalidPackage :: "js_error \<Rightarrow> bool" where
  "is_InvalidPackage (InvalidPackageBackend p) = True"
| "is_InvalidPackage (InvalidPackageFrontend p) = True"
| "is_InvalidPackage e = False"

fun is_InvalidMessage :: "js_error \<Rightarrow> bool" where
  "is_InvalidMessage MessageNotNonEmptyString = True"
| "is_InvalidMessage (MessageTooLong n) = True"
| "is_InvalidMessage e = False"

section \<open>The validator: \<^verbatim>\<open>Logger.validateLogParams\<close>\<close>

definition ALLOWED_STACKS :: "string list" where
  "ALLOWED_STACKS = [''backend'', ''frontend'']"

definition ALLOWED_LEVELS :: "string list" where
  "ALLOWED_LEVELS = [''debug'', ''info'', ''warn'', ''error'', ''fatal'']"

definition ALLOWED_BACKEND_PACKAGES :: "string list" where
  "ALLOWED_BACKEND_PACKAGES =
     [''cache'', ''controller'', ''cron'', ''domain'', ''handler'', ''repository'', ''route'',
      ''service'']"

definition ALLOWED_COMMON_PACKAGES :: "string list" where
  "ALLOWED_COMMON_PACKAGES = [''auth'', ''config'', ''middleware'']"

text \<open>\<^verbatim>\<open>Array.prototype.includes\<close> on an array of strings.\<close>

definition js_includes :: "string list \<Rightarrow> string \<Rightarrow> bool" where
  "js_includes xs x = (x \<in> set xs)"

text \<open>
  The checks run in the order of the source: the three \<^verbatim>\<open>toLowerCase()\<close> calls (a
  \<^verbatim>\<open>TypeError\<close> on a value without the method), the stack, the level, the package for the
  stack, the message being a non-blank string, and its length. The rejection of a stack, a
  level or a package echoes the argument as it was passed.
\<close>

definition check_message :: "jsarg \<Rightarrow> js_error + bool" where
  "check_message message =
     (case message of
        NonStr \<Rightarrow> Inl MessageNotNonEmptyString
      | Str m \<Rightarrow>
          if length (trim m) = 0 then Inl MessageNotNonEmptyString
          else if length m > 48 then Inl (MessageTooLong (length m))
          else Inr True)"

definition check_package :: "string \<Rightarrow> string \<Rightarrow> string \<Rightarrow> js_error option" where
  "check_package lowerStack lowerPackageName packageName =
     (if lowerStack = ''backend'' then
        (if \<not> js_includes ALLOWED_BACKEND_PACKAGES lowerPackageName
            \<and> \<not> js_includes ALLOWED_COMMON_PACKAGES lowerPackageName
         then Some (InvalidPackageBackend packageName) else None)
      else if lowerStack = ''frontend'' then
        (if \<not> js_includes ALLOWED_COMMON_PACKAGES lowerPackageName
         then Some (InvalidPackageFrontend packageName) else None)
      else None)"

fun validateLogParams :: "jsarg \<Rightarrow> jsarg \<Rightarrow> jsarg \<Rightarrow> jsarg \<Rightarrow> js_error + bool" where
  "validateLogParams (Str stack) (Str level) (Str packageName) message =
     (let lowerStack = toLowerCase stack;
          lowerLevel = toLowerCase level;
          lowerPackageName = toLowerCase packageName
      in if \<not> js_includes ALLOWED_STACKS lowerStack then Inl (InvalidStack stack)
         else if \<not> js_includes ALLOWED_LEVELS lowerLevel then Inl (InvalidLevel level)
         else (case check_package lowerStack lowerPackageName packageName of
                 Some e \<Rightarrow> Inl e
               | None \<Rightarrow> check_message message))"
| "validateLogParams stack level packageName message = Inl TypeError"

section \<open>The token provider: \<^verbatim>\<open>auth.js\<close>\<close>

text \<open>
  What one HTTP request comes to. Both modules settle the promise of a request from three
  events only: the \<^verbatim>\<open>end\<close> of the response, which gives the status code with the result of
  \<^verbatim>\<open>JSON.parse\<close> on the body (\<^term>\<open>None\<close> when the parse throws), the request's
  \<^verbatim>\<open>error\<close> event, and its \<^verbatim>\<open>timeout\<close> event. A response that begins and is cut
  before its end raises none of the three, and the promise never settles.
\<close>

datatype 'b http_outcome =
    Responded nat "'b option"
  | RequestError
  | RequestTimedOut
  | ResponseCut

text \<open>
  The parsed body of the authentication endpoint, with its two fields at the types of the
  wire format: \<^verbatim>\<open>access_token\<close> a string and \<^verbatim>\<open>expires_in\<close> a whole number of seconds,
  each \<^term>\<open>None\<close> when the body does not have it (a body that is not an object has
  neither). A string is truthy when it is not empty, a number when it is not zero.
\<close>

record auth_body =
  access_token :: "string option"
  expires_in :: "int option"

text \<open>The six variables of \<^verbatim>\<open>process.env\<close> that make the credential payload.\<close>

record process_env =
  MY_EMAIL :: "string option"
  MY_NAME :: "string option"
  MY_ROLL_NO :: "string option"
  MY_ACCESS_CODE :: "string option"
  MY_CLIENT_ID :: "string option"
  MY_CLIENT_SECRET :: "string option"

definition payload :: "process_env \<Rightarrow> (string \<times> string option) list" where
  "payload penv =
     [(''email'', MY_EMAIL penv), (''name'', MY_NAME penv), (''rollNo'', MY_ROLL_NO penv),
      (''accessCode'', MY_ACCESS_CODE penv), (''clientID'', MY_CLIENT_ID penv),
      (''clientSecret'', MY_CLIENT_SECRET penv)]"

definition truthy_string :: "string option \<Rightarrow> bool" where
  "truthy_string v = (case v of None \<Rightarrow> False | Some s \<Rightarrow> s \<noteq> [])"

text \<open>
  The values of a parsed JSON text; an object is the list of its members as they are
  written, and where a key is written twice \<^verbatim>\<open>JSON.parse\<close> keeps the last value. A number
  is kept as an integer: the logger reads no number of a response.
\<close>

datatype json =
    JNull
  | JBool bool
  | JNum int
  | JStr string
  | JArr "json list"
  | JObj "(string \<times> json) list"

text \<open>
  What the program does that its caller or the network can see, in the order it happens:
  the two requests, the delay of \<^verbatim>\<open>setTimeout\<close> and the lines written to the console.
\<close>

datatype event =
    ConsoleAuthCached
  | ConsoleAuthFetching
  | AuthRequest "(string \<times> string option) list"
  | ConsoleAuthObtained
  | ConsoleAuthError js_error
  | LogRequest "(string \<times> jsarg) list" string int
  | ConsoleRetryWarn nat js_error
  | Sleep nat
  | ConsoleSendFailed int js_error
  | ConsoleLogSent "json option"
  | ConsoleFinalFailed js_error

text \<open>
  The module-level variables \<^verbatim>\<open>currentToken\<close> (\<^term>\<open>None\<close> is \<^verbatim>\<open>null\<close>) and
  \<^verbatim>\<open>tokenExpiryTime\<close>, with the events so far.
\<close>

record state =
  currentToken :: "string option"
  tokenExpiryTime :: int
  trace :: "event list"

definition initial_state :: state where
  "initial_state = \<lparr>currentToken = None, tokenExpiryTime = 0, trace = []\<rparr>"

definition emit :: "state \<Rightarrow> event \<Rightarrow> state" where
  "emit s e = s\<lparr>trace := trace s @ [e]\<rparr>"

text \<open>The handlers of the authentication request: what the awaited promise settles to.\<close>

definition auth_response :: "auth_body http_outcome \<Rightarrow> auth_body completion" where
  "auth_response net =
     (case net of
        Responded statusCode None \<Rightarrow> Rejected AuthParseFailed
      | Responded statusCode (Some response) \<Rightarrow>
          if statusCode = 200 \<or> statusCode = 201 then Resolved response
          else Rejected (AuthStatusFailed statusCode)
      | RequestError \<Rightarrow> Rejected AuthRequestFailed
      | RequestTimedOut \<Rightarrow> Rejected AuthRequestTimeout
      | ResponseCut \<Rightarrow> Pending)"

text \<open>
  The body of the \<^verbatim>\<open>try\<close> block of \<^verbatim>\<open>getAuthToken\<close>. \<^term>\<open>url_ok\<close> says that the URL
  made of \<^verbatim>\<open>LOG_API_BASE_URL\<close> parses and that \<^verbatim>\<open>http.request\<close> takes the host and the path
  read from it; otherwise \<^verbatim>\<open>new URL\<close> or \<^verbatim>\<open>http.request\<close> throws and nothing is sent. The
  headers and the timeout of this request are constants that \<^verbatim>\<open>http.request\<close> accepts.
\<close>

definition fetch_token ::
  "process_env \<Rightarrow> bool \<Rightarrow> auth_body http_outcome \<Rightarrow> state \<Rightarrow> string completion \<times> state" where
  "fetch_token penv url_ok net s =
     (case find (\<lambda>(key, v). \<not> truthy_string v) (payload penv) of
        Some (key, v) \<Rightarrow> (Rejected (MissingEnvironmentVariable key), s)
      | None \<Rightarrow>
          if \<not> url_ok then (Rejected InvalidUrl, s)
          else
            (let s1 = emit s (AuthRequest (payload penv))
             in case auth_response net of
                  Rejected e \<Rightarrow> (Rejected e, s1)
                | Pending \<Rightarrow> (Pending, s1)
                | Resolved tokenResponse \<Rightarrow>
                    (case (access_token tokenResponse, expires_in tokenResponse) of
                       (Some t, Some x) \<Rightarrow>
                         if t \<noteq> [] \<and> x \<noteq> 0
                         then (Resolved t,
                               emit (s1\<lparr>currentToken := Some t, tokenExpiryTime := x\<rparr>)
                                 ConsoleAuthObtained)
                         else (Rejected AuthResponseMissingFields, s1)
                     | _ \<Rightarrow> (Rejected AuthResponseMissingFields, s1))))"

text \<open>
  The path of \<^verbatim>\<open>getAuthToken\<close> after the cache check: the \<^verbatim>\<open>try\<close> block and its
  \<^verbatim>\<open>catch\<close>, which writes the error to the console and throws it wrapped. While the
  request is pending nothing more happens.
\<close>

definition refresh_token ::
  "process_env \<Rightarrow> bool \<Rightarrow> auth_body http_outcome \<Rightarrow> state \<Rightarrow> string completion \<times> state" where
  "refresh_token penv url_ok net s =
     (case fetch_token penv url_ok net (emit s ConsoleAuthFetching) of
        (Resolved tok, s1) \<Rightarrow> (Resolved tok, s1)
      | (Rejected e, s1) \<Rightarrow> (Rejected (AuthenticationFailed e), emit s1 (ConsoleAuthError e))
      | (Pending, s1) \<Rightarrow> (Pending, s1))"

text \<open>
  \<^verbatim>\<open>getAuthToken\<close>; \<^term>\<open>now\<close> is \<^verbatim>\<open>Math.floor(Date.now() / 1000)\<close> at the call and
  \<^term>\<open>net\<close> what a request to the authentication endpoint comes to, should one be made.
  The test of the source is \<^verbatim>\<open>currentToken && tokenExpiryTime > now + 60\<close>.
\<close>

definition cache_fresh :: "state \<Rightarrow> int \<Rightarrow> bool" where
  "cache_fresh s now = (truthy_string (currentToken s) \<and> tokenExpiryTime s > now + 60)"

definition getAuthToken ::
  "process_env \<Rightarrow> bool \<Rightarrow> auth_body http_outcome \<Rightarrow> int \<Rightarrow> state \<Rightarrow> string completion \<times> state" where
  "getAuthToken penv url_ok net now s =
     (case currentToken s of
        Some t \<Rightarrow>
          if cache_fresh s now then (Resolved t, emit s ConsoleAuthCached)
          else refresh_token penv url_ok net s
      | None \<Rightarrow> refresh_token penv url_ok net s)"

section \<open>The log shipper: \<^verbatim>\<open>logger.js\<close>\<close>

text \<open>
  The constructor's \<^verbatim>\<open>config\<close>: each option a number or absent. \<^verbatim>\<open>a || b\<close> is \<^verbatim>\<open>b\<close>
  when \<^verbatim>\<open>a\<close> is absent or zero.
\<close>

record config =
  config_timeout :: "int option"
  config_retries :: "int option"

record logger =
  timeout :: int
  retries :: int

definition js_or :: "int option \<Rightarrow> int \<Rightarrow> int" where
  "js_or a b = (case a of None \<Rightarrow> b | Some n \<Rightarrow> if n \<noteq> 0 then n else b)"

definition new_Logger :: "config \<Rightarrow> logger" where
  "new_Logger config =
     \<lparr>timeout = js_or (config_timeout config) 5000, retries = js_or (config_retries config) 3\<rparr>"

definition default_config :: config where
  "default_config = \<lparr>config_timeout = None, config_retries = None\<rparr>"

text \<open>
  The world of one call of \<^verbatim>\<open>Log\<close>: the environment variables, whether the base URL
  parses, and, for each attempt number, the clock read by \<^verbatim>\<open>getAuthToken\<close> and what a
  request to either endpoint comes to if that attempt makes it. An attempt calls
  \<^verbatim>\<open>getAuthToken\<close> at most once and posts at most once.
\<close>

record env =
  penv :: process_env
  url_ok :: bool
  now_at :: "nat \<Rightarrow> int"
  auth_at :: "nat \<Rightarrow> auth_body http_outcome"
  log_at :: "nat \<Rightarrow> json http_outcome"

text \<open>
  The handlers of the log request: what the promise of \<^verbatim>\<open>#makeLogApiCall\<close> settles to, if
  it does.
\<close>

definition log_response :: "json http_outcome \<Rightarrow> json completion" where
  "log_response net =
     (case net of
        Responded statusCode None \<Rightarrow> Rejected LogParseFailed
      | Responded statusCode (Some response) \<Rightarrow>
          if statusCode = 200 \<or> statusCode = 201 then Resolved response
          else Rejected (LogStatusFailed statusCode)
      | RequestError \<Rightarrow> Rejected LogRequestFailed
      | RequestTimedOut \<Rightarrow> Rejected LogRequestTimeout
      | ResponseCut \<Rightarrow> Pending)"

text \<open>
  The characters \<^verbatim>\<open>http.request\<close> takes in the value of a header: the tab, and the code
  units from 32 on but 127. The value of the \<^verbatim>\<open>Authorization\<close> header is \<^verbatim>\<open>Bearer\<close>, a
  space and the token.
\<close>

definition header_char_ok :: "char \<Rightarrow> bool" where
  "header_char_ok c = (let n = (of_char c :: nat) in n = 9 \<or> (32 \<le> n \<and> n \<noteq> 127))"

definition token_safe :: "string \<Rightarrow> bool" where
  "token_safe token = list_all header_char_ok (''Bearer '' @ token)"

text \<open>
  \<^verbatim>\<open>#makeLogApiCall\<close>. Inside the executor of the promise \<^verbatim>\<open>new URL\<close> and
  \<^verbatim>\<open>http.request\<close> may throw, which rejects the promise before anything is sent:
  \<^verbatim>\<open>http.request\<close> checks the path, then the timeout (a negative one is out of range),
  then the headers. Otherwise the body is written and the request ended.
\<close>

definition makeLogApiCall ::
  "logger \<Rightarrow> bool \<Rightarrow> json http_outcome \<Rightarrow> (string \<times> jsarg) list \<Rightarrow> string \<Rightarrow> state
     \<Rightarrow> json completion \<times> state" where
  "makeLogApiCall lg ok net logData token s =
     (if \<not> ok then (Rejected InvalidUrl, s)
      else if timeout lg < 0 then (Rejected (TimeoutOutOfRange (timeout lg)), s)
      else if \<not> token_safe token then (Rejected InvalidHeaderChar, s)
      else (log_response net, emit s (LogRequest logData token (timeout lg))))"

text \<open>The payload object built after the validation: three fields lowered, the message as it is.\<close>

fun logData :: "jsarg \<Rightarrow> jsarg \<Rightarrow> jsarg \<Rightarrow> jsarg \<Rightarrow> js_error + (string \<times> jsarg) list" where
  "logData (Str stack) (Str level) (Str packageName) message =
     Inr [(''stack'', Str (toLowerCase stack)), (''level'', Str (toLowerCase level)),
          (''package'', Str (toLowerCase packageName)), (''message'', message)]"
| "logData stack level packageName message = Inl TypeError"

text \<open>The \<^verbatim>\<open>try\<close> block of \<^verbatim>\<open>#logWithRetry\<close>: one attempt.\<close>

definition attempt_once ::
  "logger \<Rightarrow> env \<Rightarrow> jsarg \<Rightarrow> jsarg \<Rightarrow> jsarg \<Rightarrow> jsarg \<Rightarrow> nat \<Rightarrow> state \<Rightarrow> json completion \<times> state" where
  "attempt_once lg w stack level packageName message attempt s =
     (case validateLogParams stack level packageName message of
        Inl e \<Rightarrow> (Rejected e, s)
      | Inr ok \<Rightarrow>
          (case logData stack level packageName message of
             Inl e \<Rightarrow> (Rejected e, s)
           | Inr body \<Rightarrow>
               (case getAuthToken (penv w) (url_ok w) (auth_at w attempt) (now_at w attempt) s of
                  (Rejected e, s1) \<Rightarrow> (Rejected e, s1)
                | (Pending, s1) \<Rightarrow> (Pending, s1)
                | (Resolved token, s1) \<Rightarrow>
                    if token = [] then (Rejected TokenNotAcquired, s1)
                    else makeLogApiCall lg (url_ok w) (log_at w attempt) body token s1)))"

text \<open>
  \<^verbatim>\<open>#logWithRetry\<close>: the \<^verbatim>\<open>try\<close> block, and the \<^verbatim>\<open>catch\<close> that warns, passes
  \<^verbatim>\<open>1000 * attempt\<close> milliseconds to \<^verbatim>\<open>setTimeout\<close> and calls itself with
  \<^verbatim>\<open>attempt + 1\<close> while \<^verbatim>\<open>attempt < this.retries\<close>, and throws the error on otherwise.
  A pending attempt reaches neither the \<^verbatim>\<open>return\<close> nor the \<^verbatim>\<open>catch\<close>.
\<close>

function logWithRetry ::
  "logger \<Rightarrow> env \<Rightarrow> jsarg \<Rightarrow> jsarg \<Rightarrow> jsarg \<Rightarrow> jsarg \<Rightarrow> nat \<Rightarrow> state \<Rightarrow> json completion \<times> state" where
  "logWithRetry lg w stack level packageName message attempt s =
     (case attempt_once lg w stack level packageName message attempt s of
        (Resolved response, s1) \<Rightarrow> (Resolved response, s1)
      | (Pending, s1) \<Rightarrow> (Pending, s1)
      | (Rejected error, s1) \<Rightarrow>
          if int attempt < retries lg
          then logWithRetry lg w stack level packageName message (attempt + 1)
                 (emit (emit s1 (ConsoleRetryWarn attempt error)) (Sleep (1000 * attempt)))
          else (Rejected error, emit s1 (ConsoleSendFailed (retries lg) error)))"
  by pat_completeness auto
termination
  by (relation "measure (\<lambda>(lg, w, stack, level, packageName, message, attempt, s).
        nat (retries lg - int attempt))") auto

declare logWithRetry.simps [simp del]

text \<open>
  Reading a property of a parsed response: \<^verbatim>\<open>null\<close> has none and the read throws; an object
  gives the value under the key (the last one written), anything else \<^verbatim>\<open>undefined\<close>.
\<close>

definition get_property :: "json \<Rightarrow> string \<Rightarrow> js_error + json option" where
  "get_property v key =
     (case v of
        JNull \<Rightarrow> Inl TypeError
      | JObj props \<Rightarrow> Inr (map_of (rev props) key)
      | _ \<Rightarrow> Inr None)"

text \<open>
  The template literal of \<^verbatim>\<open>Log\<close> converts \<^verbatim>\<open>response.logID\<close> to a string. The
  conversion throws a \<^verbatim>\<open>TypeError\<close> for an object that has a property \<^verbatim>\<open>toString\<close> of
  its own (no parsed value is a function, and \<^verbatim>\<open>valueOf\<close> gives no primitive), and for an
  array with an element that cannot be converted (\<^verbatim>\<open>join\<close> converts each element but
  \<^verbatim>\<open>null\<close>); \<^verbatim>\<open>undefined\<close> and every other value have a string.
\<close>

fun stringifiable :: "json \<Rightarrow> bool" where
  "stringifiable (JArr xs) = list_all stringifiable xs"
| "stringifiable (JObj props) = (''toString'' \<notin> set (map fst props))"
| "stringifiable v = True"

definition printable :: "json option \<Rightarrow> bool" where
  "printable v = (case v of None \<Rightarrow> True | Some x \<Rightarrow> stringifiable x)"

text \<open>
  \<^verbatim>\<open>Log\<close>: the promise it returns resolves to the response or, from the \<^verbatim>\<open>catch\<close>, to
  \<^verbatim>\<open>null\<close> (\<^term>\<open>JNull\<close>); it stays pending while \<^verbatim>\<open>#logWithRetry\<close> is.
\<close>

definition Log ::
  "logger \<Rightarrow> env \<Rightarrow> jsarg \<Rightarrow> jsarg \<Rightarrow> jsarg \<Rightarrow> jsarg \<Rightarrow> state \<Rightarrow> json completion \<times> state" where
  "Log lg w stack level packageName message s =
     (case logWithRetry lg w stack level packageName message 1 s of
        (Resolved response, s1) \<Rightarrow>
          (case get_property response ''logID'' of
             Inr logID \<Rightarrow>
               if printable logID then (Resolved response, emit s1 (ConsoleLogSent logID))
               else (Resolved JNull, emit s1 (ConsoleFinalFailed TypeError))
           | Inl error \<Rightarrow> (Resolved JNull, emit s1 (ConsoleFinalFailed error)))
      | (Rejected error, s1) \<Rightarrow> (Resolved JNull, emit s1 (ConsoleFinalFailed error))
      | (Pending, s1) \<Rightarrow> (Pending, s1))"

text \<open>
  The convenience methods \<^verbatim>\<open>debug\<close>, \<^verbatim>\<open>info\<close>, \<^verbatim>\<open>warn\<close>, \<^verbatim>\<open>error\<close> and \<^verbatim>\<open>fatal\<close> fix
  the level.
\<close>

definition debug_log ::
  "logger \<Rightarrow> env \<Rightarrow> jsarg \<Rightarrow> jsarg \<Rightarrow> jsarg \<Rightarrow> state \<Rightarrow> json completion \<times> state" where
  "debug_log lg w stack packageName message = Log lg w stack (Str ''debug'') packageName message"

definition info_log ::
  "logger \<Rightarrow> env \<Rightarrow> jsarg \<Rightarrow> jsarg \<Rightarrow> jsarg \<Rightarrow> state \<Rightarrow> json completion \<times> state" where
  "info_log lg w stack packageName message = Log lg w stack (Str ''info'') packageName message"

definition warn_log ::
  "logger \<Rightarrow> env \<Rightarrow> jsarg \<Rightarrow> jsarg \<Rightarrow> jsarg \<Rightarrow> state \<Rightarrow> json completion \<times> state" where
  "warn_log lg w stack packageName message = Log lg w stack (Str ''warn'') packageName message"

definition error_log ::
  "logger \<Rightarrow> env \<Rightarrow> jsarg \<Rightarrow> jsarg \<Rightarrow> jsarg \<Rightarrow> state \<Rightarrow> json completion \<times> state" where
  "error_log lg w stack packageName message = Log lg w stack (Str ''error'') packageName message"

definition fatal_log ::
  "logger \<Rightarrow> env \<Rightarrow> jsarg \<Rightarrow> jsarg \<Rightarrow> jsarg \<Rightarrow> state \<Rightarrow> json completion \<times> state" where
  "fatal_log lg w stack packageName message = Log lg w stack (Str ''fatal'') packageName message"

text \<open>
  Readings of a trace. A \<^term>\<open>Sleep\<close> holds the delay passed to \<^verbatim>\<open>setTimeout\<close>.
\<close>

fun sleeps :: "event list \<Rightarrow> nat list" where
  "sleeps [] = []"
| "sleeps (Sleep d # es) = d # sleeps es"
| "sleeps (e # es) = sleeps es"

fun log_requests :: "event list \<Rightarrow> ((string \<times> jsarg) list \<times> string \<times> int) list" where
  "log_requests [] = []"
| "log_requests (LogRequest body token t # es) = (body, token, t) # log_requests es"
| "log_requests (e # es) = log_requests es"

fun auth_requests :: "event list \<Rightarrow> (string \<times> string option) list list" where
  "auth_requests [] = []"
| "auth_requests (AuthRequest body # es) = body # auth_requests es"
| "auth_requests (e # es) = auth_requests es"

fun retry_warnings :: "event list \<Rightarrow> nat list" where
  "retry_warnings [] = []"
| "retry_warnings (ConsoleRetryWarn n e # es) = n # retry_warnings es"
| "retry_warnings (e # es) = retry_warnings es"

text \<open>
  The errors \<^verbatim>\<open>#logWithRetry\<close> writes to the console, one for each failed attempt: with the
  warning before a retry, and with the last line when it gives up.
\<close>

fun reported_errors :: "event list \<Rightarrow> js_error list" where
  "reported_errors [] = []"
| "reported_errors (ConsoleRetryWarn n e # es) = e # reported_errors es"
| "reported_errors (ConsoleSendFailed k e # es) = e # reported_errors es"
| "reported_errors (e # es) = reported_errors es"

text \<open>The errors of the transport: those \<^verbatim>\<open>#makeLogApiCall\<close> rejects with after it has posted.\<close>

fun is_transport_error :: "js_error \<Rightarrow> bool" where
  "is_transport_error (LogStatusFailed n) = True"
| "is_transport_error LogParseFailed = True"
| "is_transport_error LogRequestFailed = True"
| "is_transport_error LogRequestTimeout = True"
| "is_transport_error e = False"

section \<open>Conditions on the world, and example worlds\<close>

text \<open>All six credential variables are set and not empty.\<close>

definition credentials_complete :: "process_env \<Rightarrow> bool" where
  "credentials_complete p = list_all (\<lambda>(key, v). truthy_string v) (payload p)"

text \<open>
  The authentication endpoint answers 200 or 201 with a body that has a truthy
  \<^verbatim>\<open>access_token\<close> and a truthy \<^verbatim>\<open>expires_in\<close>.
\<close>

definition token_granted :: "auth_body http_outcome \<Rightarrow> bool" where
  "token_granted net =
     (case auth_response net of
        Resolved b \<Rightarrow> truthy_string (access_token b)
                 \<and> (case expires_in b of None \<Rightarrow> False | Some x \<Rightarrow> x \<noteq> 0)
      | _ \<Rightarrow> False)"

text \<open>The token granted can stand in a header, and so can the token in the cache, if any.\<close>

definition token_usable :: "auth_body http_outcome \<Rightarrow> bool" where
  "token_usable net =
     (token_granted net
      \<and> (case net of
            Responded statusCode (Some b) \<Rightarrow>
              (case access_token b of None \<Rightarrow> False | Some t \<Rightarrow> token_safe t)
          | _ \<Rightarrow> False))"

definition cache_safe :: "state \<Rightarrow> bool" where
  "cache_safe s = (case currentToken s of None \<Rightarrow> True | Some t \<Rightarrow> token_safe t)"

text \<open>The response is not \<^verbatim>\<open>null\<close> and \<^verbatim>\<open>Log\<close> can print its \<^verbatim>\<open>logID\<close>.\<close>

definition log_id_printable :: "json \<Rightarrow> bool" where
  "log_id_printable response =
     (case get_property response ''logID'' of Inl e \<Rightarrow> False | Inr logID \<Rightarrow> printable logID)"

definition example_penv :: process_env where
  "example_penv =
     \<lparr>MY_EMAIL = Some ''dev@example.org'', MY_NAME = Some ''dev'', MY_ROLL_NO = Some ''2200'',
      MY_ACCESS_CODE = Some ''code'', MY_CLIENT_ID = Some ''id'', MY_CLIENT_SECRET = Some ''secret''\<rparr>"

definition example_token :: "auth_body http_outcome" where
  "example_token = Responded 200 (Some \<lparr>access_token = Some ''tok1'', expires_in = Some 4600\<rparr>)"

definition example_logged :: "json http_outcome" where
  "example_logged = Responded 201 (Some (JObj [(''logID'', JStr ''abc123'')]))"

text \<open>
  Worlds with the credentials set and a token granted on request: the logging endpoint
  never answers; it answers 201 with a log identifier; it does so from the third attempt
  on, after two network errors; it answers 200 with an empty object; its responses are all
  cut before their end; only its first response is cut.
\<close>

definition world_down :: env where
  "world_down =
     \<lparr>penv = example_penv, url_ok = True, now_at = (\<lambda>k. 1000), auth_at = (\<lambda>k. example_token),
      log_at = (\<lambda>k. RequestTimedOut)\<rparr>"

definition world_up :: env where
  "world_up = world_down\<lparr>log_at := (\<lambda>k. example_logged)\<rparr>"

definition world_third :: env where
  "world_third = world_down\<lparr>log_at := (\<lambda>k. if k < 3 then RequestError else example_logged)\<rparr>"

definition world_no_id :: env where
  "world_no_id = world_down\<lparr>log_at := (\<lambda>k. Responded 200 (Some (JObj [])))\<rparr>"



text \<open>The environment without \<^verbatim>\<open>MY_EMAIL\<close>, and a state with a token cached until \<open>expiry\<close>.\<close>

definition penv_no_email :: process_env where
  "penv_no_email = example_penv\<lparr>MY_EMAIL := None\<rparr>"

definition cached :: "int \<Rightarrow> state" where
  "cached expiry = \<lparr>currentToken = Some ''tok0'', tokenExpiryTime = expiry, trace = []\<rparr>"

section \<open>Readings of a trace\<close>

lemma sleeps_append [simp]: "sleeps (xs @ ys) = sleeps xs @ sleeps ys"
  by (induction xs rule: sleeps.induct) simp_all

lemma log_requests_append [simp]: "log_requests (xs @ ys) = log_requests xs @ log_requests ys"
  by (induction xs rule: log_requests.induct) simp_all

lemma auth_requests_append [simp]: "auth_requests (xs @ ys) = auth_requests xs @ auth_requests ys"
  by (induction xs rule: auth_requests.induct) simp_all

lemma retry_warnings_append [simp]:
  "retry_warnings (xs @ ys) = retry_warnings xs @ retry_warnings ys"
  by (induction xs rule: retry_warnings.induct) simp_all

lemma reported_errors_append [simp]:
  "reported_errors (xs @ ys) = reported_errors xs @ reported_errors ys"
  by (induction xs rule: reported_errors.induct) simp_all

lemma emit_simps [simp]:
  "trace (emit s e) = trace s @ [e]"
  "currentToken (emit s e) = currentToken s"
  "tokenExpiryTime (emit s e) = tokenExpiryTime s"
  by (simp_all add: emit_def)

section \<open>Properties of the validator\<close>

lemma lower_char_idem: "lower_char (lower_char c) = lower_char c"
proof -
  have "of_char (char_of (of_char c + 32 :: nat)) = (of_char c + 32 :: nat)"
    if "(of_char c :: nat) \<le> 222"
    using that by simp
  then show ?thesis
    by (auto simp: lower_char_def Let_def)
qed

lemma toLowerCase_idem: "toLowerCase (toLowerCase s) = toLowerCase s"
  by (simp add: toLowerCase_def lower_char_idem)

lemma trim_empty_iff: "trim m = [] \<longleftrightarrow> (\<forall>c \<in> set m. js_whitespace c)"
proof
  assume "trim m = []"
  then have all_rest: "\<forall>c \<in> set (dropWhile js_whitespace m). js_whitespace c"
    by (simp add: trim_def dropWhile_eq_Nil_conv)
  have "dropWhile js_whitespace m = []"
  proof (cases "dropWhile js_whitespace m")
    case Nil
    then show ?thesis .
  next
    case (Cons c cs)
    then have "\<not> js_whitespace c"
      by (metis hd_dropWhile list.sel(1) list.distinct(1))
    with all_rest Cons show ?thesis by simp
  qed
  then show "\<forall>c \<in> set m. js_whitespace c"
    by (simp add: dropWhile_eq_Nil_conv)
next
  assume "\<forall>c \<in> set m. js_whitespace c"
  then have "dropWhile js_whitespace m = []"
    by (simp add: dropWhile_eq_Nil_conv)
  then show "trim m = []"
    by (simp only: trim_def rev.simps dropWhile.simps)
qed

lemma validate_Str_cases:
  "validateLogParams stack level packageName message = Inr b \<Longrightarrow>
     \<exists>s l p m. stack = Str s \<and> level = Str l \<and> packageName = Str p \<and> message = Str m"
  by (cases stack; cases level; cases packageName; cases message)
     (auto simp: Let_def check_message_def split: if_splits option.splits)

lemma validate_fields:
  "validateLogParams (Str st) (Str l) (Str p) m = Inr b \<Longrightarrow>
     toLowerCase st \<in> set ALLOWED_STACKS \<and> toLowerCase l \<in> set ALLOWED_LEVELS
     \<and> toLowerCase p \<in> set (ALLOWED_BACKEND_PACKAGES @ ALLOWED_COMMON_PACKAGES)"
  by (auto simp: Let_def js_includes_def check_package_def ALLOWED_STACKS_def
      split: if_splits option.splits)


text \<open>Once the stack, the level and the package pass, the message check decides.\<close>

lemma validate_message_only:
  assumes "validateLogParams stack level packageName m0 = Inr b"
  shows "validateLogParams stack level packageName message = check_message message"
proof -
  from validate_Str_cases [OF assms] obtain s l p where
    args: "stack = Str s" "level = Str l" "packageName = Str p" by blast
  from assms show ?thesis
    unfolding args by (simp add: Let_def split: if_splits option.splits)
qed

text \<open>
  Claim C7. The message check fails with an \<open>InvalidMessage\<close> error exactly when the message
  is empty, consists of white space only, or is longer than 48 characters, and passes
  otherwise, so that a message of exactly 48 characters that is not blank passes. The
  message is checked last: the message check is the result of the validator whenever the
  stack, the level and the package pass their checks (the event validates with some
  message \<open>m0\<close>), and whatever the other fields are, the validator raises an
  \<open>InvalidMessage\<close> error only for such a message.
\<close>

theorem message_check:
  "((\<exists>e. check_message (Str m) = Inl e \<and> is_InvalidMessage e)
      \<longleftrightarrow> (m = [] \<or> (\<forall>c \<in> set m. js_whitespace c) \<or> length m > 48))
   \<and> (check_message (Str m) = Inr True
      \<longleftrightarrow> \<not> (m = [] \<or> (\<forall>c \<in> set m. js_whitespace c) \<or> length m > 48))
   \<and> (validateLogParams stack level packageName m0 = Inr True
      \<longrightarrow> validateLogParams stack level packageName (Str m) = check_message (Str m))
   \<and> (validateLogParams stack level packageName (Str m) = Inl e \<and> is_InvalidMessage e
      \<longrightarrow> m = [] \<or> (\<forall>c \<in> set m. js_whitespace c) \<or> length m > 48)"
proof -
  have chk: "check_message (Str m) =
      (if \<forall>c \<in> set m. js_whitespace c then Inl MessageNotNonEmptyString
       else if length m > 48 then Inl (MessageTooLong (length m)) else Inr True)"
    by (simp add: check_message_def trim_empty_iff)
  have a: "validateLogParams stack level packageName m0 = Inr True \<Longrightarrow>
      validateLogParams stack level packageName (Str m) = check_message (Str m)"
    by (rule validate_message_only)
  have b: "validateLogParams stack level packageName (Str m) = Inl e \<Longrightarrow> is_InvalidMessage e
        \<Longrightarrow> m = [] \<or> (\<forall>c \<in> set m. js_whitespace c) \<or> length m > 48"
    by (cases stack; cases level; cases packageName)
       (auto simp: Let_def chk check_package_def split: if_splits option.splits)
  show ?thesis
    using a b by (auto simp: chk)
qed

theorem message_check_witness:
  "validateLogParams (Str ''backend'') (Str ''info'') (Str ''handler'') (Str ''ok'') = Inr True
   \<and> validateLogParams (Str ''backend'') (Str ''info'') (Str ''handler'')
        (Str (replicate 48 CHR ''a'')) = Inr True
   \<and> (\<exists>e. validateLogParams (Str ''backend'') (Str ''info'') (Str ''handler'')
        (Str (replicate 49 CHR ''a'')) = Inl e \<and> is_InvalidMessage e)
   \<and> (\<exists>e. validateLogParams (Str ''backend'') (Str ''info'') (Str ''handler'')
        (Str [CHR '' '', CHR 0x09]) = Inl e \<and> is_InvalidMessage e)"
proof -
  have ok: "validateLogParams (Str ''backend'') (Str ''info'') (Str ''handler'') (Str ''ok'')
      = Inr True"
    by code_simp
  have a: "\<not> js_whitespace CHR ''a''" by code_simp
  have b: "js_whitespace CHR '' ''" "js_whitespace (CHR 0x09)" by code_simp+
  note mc = message_check [of _ "Str ''backend''" "Str ''info''" "Str ''handler''" "Str ''ok''"]
  show ?thesis
    using ok a b mc [of "replicate 48 CHR ''a''"] mc [of "replicate 49 CHR ''a''"]
      mc [of "[CHR '' '', CHR 0x09]"]
    by simp
qed

text \<open>
  Claim C8. For the frontend stack the package check rejects, with the \<open>InvalidPackage\<close>
  error of that stack, every package that lowers to one of the eight backend-only names,
  in whatever case the stack and the package are written, and it passes exactly the
  packages that lower to \<open>auth\<close>, \<open>config\<close> or \<open>middleware\<close>. For the validator as a whole:
  with a stack that lowers to \<open>frontend\<close> and a backend-only package it fails whatever
  the level and the message are, with that error once the level is one of the five (the
  level is checked before the package); it accepts an event of the frontend stack only
  with a shared package, and with a shared package and a valid level only the message is
  left to check.
\<close>

theorem frontend_packages:
  "set ALLOWED_BACKEND_PACKAGES =
     {''cache'', ''controller'', ''cron'', ''domain'', ''handler'', ''repository'', ''route'',
      ''service''}
   \<and> set ALLOWED_COMMON_PACKAGES = {''auth'', ''config'', ''middleware''}
   \<and> (toLowerCase packageName \<in> set ALLOWED_BACKEND_PACKAGES
        \<longrightarrow> check_package ''frontend'' (toLowerCase packageName) packageName
              = Some (InvalidPackageFrontend packageName)
          \<and> is_InvalidPackage (InvalidPackageFrontend packageName))
   \<and> (check_package ''frontend'' (toLowerCase packageName) packageName = None
        \<longleftrightarrow> toLowerCase packageName \<in> set ALLOWED_COMMON_PACKAGES)
   \<and> (toLowerCase stack = ''frontend'' \<and> toLowerCase packageName \<in> set ALLOWED_BACKEND_PACKAGES
        \<longrightarrow> (\<exists>e. validateLogParams (Str stack) (Str level) (Str packageName) message = Inl e)
          \<and> (toLowerCase level \<in> set ALLOWED_LEVELS \<longrightarrow>
                validateLogParams (Str stack) (Str level) (Str packageName) message
                  = Inl (InvalidPackageFrontend packageName)))
   \<and> (toLowerCase stack = ''frontend''
        \<and> validateLogParams (Str stack) (Str level) (Str packageName) message = Inr True
        \<longrightarrow> toLowerCase packageName \<in> set ALLOWED_COMMON_PACKAGES)
   \<and> (toLowerCase stack = ''frontend'' \<and> toLowerCase level \<in> set ALLOWED_LEVELS
        \<and> toLowerCase packageName \<in> set ALLOWED_COMMON_PACKAGES
        \<longrightarrow> validateLogParams (Str stack) (Str level) (Str packageName) message
              = check_message message)"
  by (auto simp: ALLOWED_BACKEND_PACKAGES_def ALLOWED_COMMON_PACKAGES_def ALLOWED_STACKS_def
        js_includes_def check_package_def Let_def split: if_splits)

theorem frontend_packages_witness:
  "toLowerCase ''FrontEnd'' = ''frontend''
   \<and> toLowerCase ''Repository'' \<in> set ALLOWED_BACKEND_PACKAGES
   \<and> toLowerCase ''INFO'' \<in> set ALLOWED_LEVELS
   \<and> validateLogParams (Str ''FrontEnd'') (Str ''INFO'') (Str ''Repository'') (Str ''hello'')
       = Inl (InvalidPackageFrontend ''Repository'')
   \<and> toLowerCase ''Auth'' \<in> set ALLOWED_COMMON_PACKAGES
   \<and> validateLogParams (Str ''FrontEnd'') (Str ''INFO'') (Str ''Auth'') (Str ''hello'') = Inr True"
proof -
  have h: "toLowerCase ''FrontEnd'' = ''frontend''"
    "toLowerCase ''Repository'' \<in> set ALLOWED_BACKEND_PACKAGES"
    "toLowerCase ''INFO'' \<in> set ALLOWED_LEVELS"
    "toLowerCase ''Auth'' \<in> set ALLOWED_COMMON_PACKAGES"
    by code_simp+
  have m: "check_message (Str ''hello'') = Inr True" by code_simp
  show ?thesis
    using h m
      frontend_packages [of "''Repository''" "''FrontEnd''" "''INFO''" "Str ''hello''"]
      frontend_packages [of "''Auth''" "''FrontEnd''" "''INFO''" "Str ''hello''"]
    by simp
qed

section \<open>Properties of the constructor\<close>

lemma default_logger [simp]: "new_Logger default_config = \<lparr>timeout = 5000, retries = 3\<rparr>"
  by (simp add: new_Logger_def default_config_def js_or_def)

text \<open>
  Claim C10. The constructor takes a falsy option as absent: a timeout of 0 gives the
  default 5000 ms and 0 retries give the default ceiling 3, as an absent option does, so no
  configuration yields a logger with a zero timeout or a zero ceiling.
\<close>

theorem constructor_falsy_defaults:
  "new_Logger \<lparr>config_timeout = Some 0, config_retries = Some 0\<rparr> = \<lparr>timeout = 5000, retries = 3\<rparr>
   \<and> timeout (new_Logger (c\<lparr>config_timeout := Some 0\<rparr>)) = 5000
   \<and> retries (new_Logger (c\<lparr>config_retries := Some 0\<rparr>)) = 3
   \<and> timeout (new_Logger (c\<lparr>config_timeout := None\<rparr>)) = 5000
   \<and> retries (new_Logger (c\<lparr>config_retries := None\<rparr>)) = 3
   \<and> timeout (new_Logger c) \<noteq> 0 \<and> retries (new_Logger c) \<noteq> 0"
  by (simp add: new_Logger_def js_or_def split: option.splits)

section \<open>Properties of the token provider\<close>

lemma example_credentials: "credentials_complete example_penv"
  by code_simp

lemma example_token_granted: "token_granted example_token"
  by code_simp

lemma example_token_usable: "token_usable example_token"
  by code_simp

lemma cache_safe_emit [simp]: "cache_safe (emit s e) = cache_safe s"
  by (simp add: cache_safe_def)

lemma cache_safe_initial: "cache_safe initial_state"
  by (simp add: cache_safe_def initial_state_def)

lemma find_missing_None:
  "credentials_complete p \<longleftrightarrow> find (\<lambda>(key, v). \<not> truthy_string v) (payload p) = None"
  by (auto simp: credentials_complete_def find_None_iff list_all_iff)

lemma cache_fresh_iff:
  "cache_fresh s now \<longleftrightarrow> (\<exists>t. currentToken s = Some t \<and> t \<noteq> [] \<and> now + 60 < tokenExpiryTime s)"
  by (auto simp: cache_fresh_def truthy_string_def split: option.splits)

text \<open>The request to the authentication endpoint, step by step.\<close>

lemma fetch_token_failure:
  "fetch_token p ok net s = (r, s') \<Longrightarrow> \<not> is_Resolved r \<Longrightarrow>
     currentToken s' = currentToken s \<and> tokenExpiryTime s' = tokenExpiryTime s"
  by (auto simp: fetch_token_def Let_def
      split: option.splits completion.splits prod.splits if_splits)

lemma fetch_token_requests:
  "auth_requests (trace (snd (fetch_token p ok net s))) =
     (if credentials_complete p \<and> ok then auth_requests (trace s) @ [payload p]
      else auth_requests (trace s))"
  by (auto simp: fetch_token_def find_missing_None Let_def
      split: option.splits completion.splits prod.splits if_splits)

lemma fetch_token_succeeds_iff:
  "(\<exists>tok s'. fetch_token p ok net s = (Resolved tok, s'))
     \<longleftrightarrow> credentials_complete p \<and> ok \<and> token_granted net"
  by (auto simp: fetch_token_def find_missing_None token_granted_def truthy_string_def Let_def
      split: option.splits completion.splits prod.splits if_splits)

lemma auth_response_pending_iff: "auth_response net = Pending \<longleftrightarrow> net = ResponseCut"
  by (auto simp: auth_response_def split: http_outcome.splits option.splits)

lemma auth_response_cut [simp]: "auth_response ResponseCut = Pending"
  by (simp add: auth_response_def)

lemma fetch_token_pending_iff:
  "(\<exists>s'. fetch_token p ok net s = (Pending, s'))
     \<longleftrightarrow> credentials_complete p \<and> ok \<and> net = ResponseCut"
  by (auto simp: fetch_token_def find_missing_None auth_response_pending_iff Let_def
      split: option.splits completion.splits prod.splits if_splits)

lemma token_usable_cases:
  assumes "token_usable net"
  obtains st b t where "net = Responded st (Some b)" "access_token b = Some t" "token_safe t"
    "auth_response net = Resolved b"
  using assms
  by (auto simp: token_usable_def token_granted_def auth_response_def
      split: http_outcome.splits option.splits if_splits)

lemma fetch_token_usable:
  assumes f: "fetch_token p ok net s = (Resolved tok, s')" and tu: "token_usable net"
  shows "token_safe tok \<and> cache_safe s'"
proof -
  from tu obtain st b t where
    n: "auth_response net = Resolved b" "access_token b = Some t" "token_safe t"
    by (rule token_usable_cases)
  show ?thesis
    using f n
    by (auto simp: fetch_token_def cache_safe_def Let_def split: option.splits if_splits)
qed

lemma fetch_token_frame:
  assumes "fetch_token p ok net s = (r, s')"
  shows "sleeps (trace s') = sleeps (trace s)"
    and "retry_warnings (trace s') = retry_warnings (trace s)"
    and "log_requests (trace s') = log_requests (trace s)"
    and "reported_errors (trace s') = reported_errors (trace s)"
  using assms
  by (auto simp: fetch_token_def Let_def
      split: option.splits completion.splits prod.splits if_splits)

lemma fetch_token_nonempty:
  "fetch_token p ok net s = (Resolved tok, s') \<Longrightarrow> tok \<noteq> []"
  by (auto simp: fetch_token_def Let_def
      split: option.splits completion.splits prod.splits if_splits)

lemma fetch_token_cache_safe:
  "fetch_token p ok net s = (r, s') \<Longrightarrow> \<not> is_Resolved r \<Longrightarrow> cache_safe s' = cache_safe s"
  by (auto simp: cache_safe_def dest: fetch_token_failure)

lemma refresh_token_failure:
  "refresh_token p ok net s = (r, s') \<Longrightarrow> \<not> is_Resolved r \<Longrightarrow>
     currentToken s' = currentToken s \<and> tokenExpiryTime s' = tokenExpiryTime s"
  by (auto simp: refresh_token_def split: completion.splits prod.splits dest: fetch_token_failure)

lemma refresh_token_requests:
  "auth_requests (trace (snd (refresh_token p ok net s))) =
     (if credentials_complete p \<and> ok then auth_requests (trace s) @ [payload p]
      else auth_requests (trace s))"
proof -
  obtain r s1 where f: "fetch_token p ok net (emit s ConsoleAuthFetching) = (r, s1)"
    by (cases "fetch_token p ok net (emit s ConsoleAuthFetching)")
  have "auth_requests (trace s1) =
     (if credentials_complete p \<and> ok then auth_requests (trace s) @ [payload p]
      else auth_requests (trace s))"
    using fetch_token_requests [of p ok net "emit s ConsoleAuthFetching"] f by simp
  then show ?thesis
    using f by (cases r) (simp_all add: refresh_token_def)
qed

lemma refresh_token_succeeds_iff:
  "(\<exists>tok s'. refresh_token p ok net s = (Resolved tok, s'))
     \<longleftrightarrow> credentials_complete p \<and> ok \<and> token_granted net"
proof -
  obtain r s1 where f: "fetch_token p ok net (emit s ConsoleAuthFetching) = (r, s1)"
    by (cases "fetch_token p ok net (emit s ConsoleAuthFetching)")
  have "(\<exists>tok. r = Resolved tok) \<longleftrightarrow> credentials_complete p \<and> ok \<and> token_granted net"
    using fetch_token_succeeds_iff [of p ok net "emit s ConsoleAuthFetching"] f by simp
  then show ?thesis
    using f by (cases r) (simp_all add: refresh_token_def)
qed

lemma refresh_token_pending_iff:
  "(\<exists>s'. refresh_token p ok net s = (Pending, s'))
     \<longleftrightarrow> credentials_complete p \<and> ok \<and> net = ResponseCut"
proof -
  obtain r s1 where f: "fetch_token p ok net (emit s ConsoleAuthFetching) = (r, s1)"
    by (cases "fetch_token p ok net (emit s ConsoleAuthFetching)")
  have "r = Pending \<longleftrightarrow> credentials_complete p \<and> ok \<and> net = ResponseCut"
    using fetch_token_pending_iff [of p ok net "emit s ConsoleAuthFetching"] f by simp
  then show ?thesis
    using f by (cases r) (simp_all add: refresh_token_def)
qed

text \<open>
  A refresh that is not granted a token does not resolve; it is rejected unless the
  request was sent and its response cut.
\<close>

lemma refresh_token_fails:
  assumes "\<not> (credentials_complete p \<and> ok \<and> token_granted net)"
  shows "\<not> is_Resolved (fst (refresh_token p ok net s))"
    and "\<not> (credentials_complete p \<and> ok \<and> net = ResponseCut)
         \<Longrightarrow> is_Rejected (fst (refresh_token p ok net s))"
proof -
  obtain r s1 where rt: "refresh_token p ok net s = (r, s1)"
    by (cases "refresh_token p ok net s")
  have nr: "\<not> is_Resolved r"
    using rt assms refresh_token_succeeds_iff [of p ok net s] by (cases r) auto
  then show "\<not> is_Resolved (fst (refresh_token p ok net s))"
    using rt by simp
  show "is_Rejected (fst (refresh_token p ok net s))"
    if "\<not> (credentials_complete p \<and> ok \<and> net = ResponseCut)"
    using rt nr that refresh_token_pending_iff [of p ok net s] by (cases r) auto
qed

lemma refresh_token_frame:
  assumes "refresh_token p ok net s = (r, s')"
  shows "sleeps (trace s') = sleeps (trace s)"
    and "retry_warnings (trace s') = retry_warnings (trace s)"
    and "log_requests (trace s') = log_requests (trace s)"
    and "reported_errors (trace s') = reported_errors (trace s)"
  using assms
  by (auto simp: refresh_token_def split: completion.splits prod.splits dest: fetch_token_frame)

lemma refresh_token_nonempty:
  "refresh_token p ok net s = (Resolved tok, s') \<Longrightarrow> tok \<noteq> []"
  by (auto simp: refresh_token_def split: completion.splits prod.splits
      dest: fetch_token_nonempty)

lemma refresh_token_usable:
  "refresh_token p ok net s = (Resolved tok, s') \<Longrightarrow> token_usable net
     \<Longrightarrow> token_safe tok \<and> cache_safe s'"
  by (auto simp: refresh_token_def split: completion.splits prod.splits
      dest: fetch_token_usable)

lemma refresh_token_cache_safe:
  "refresh_token p ok net s = (r, s') \<Longrightarrow> \<not> is_Resolved r \<Longrightarrow> cache_safe s' = cache_safe s"
  by (auto simp: cache_safe_def dest: refresh_token_failure)

lemma getAuthToken_stale:
  "\<not> cache_fresh s now \<Longrightarrow> getAuthToken p ok net now s = refresh_token p ok net s"
  by (simp add: getAuthToken_def split: option.splits)

lemma getAuthToken_fresh:
  "cache_fresh s now \<Longrightarrow> currentToken s = Some t
     \<Longrightarrow> getAuthToken p ok net now s = (Resolved t, emit s ConsoleAuthCached)"
  by (simp add: getAuthToken_def)

lemma getAuthToken_frame:
  assumes "getAuthToken p ok net now s = (r, s')"
  shows "sleeps (trace s') = sleeps (trace s)"
    and "retry_warnings (trace s') = retry_warnings (trace s)"
    and "log_requests (trace s') = log_requests (trace s)"
    and "reported_errors (trace s') = reported_errors (trace s)"
  using assms
  by (auto simp: getAuthToken_def split: option.splits if_splits dest: refresh_token_frame)

lemma getAuthToken_nonempty:
  "getAuthToken p ok net now s = (Resolved tok, s') \<Longrightarrow> tok \<noteq> []"
  by (auto simp: getAuthToken_def cache_fresh_def truthy_string_def
      split: option.splits if_splits dest: refresh_token_nonempty)


lemma getAuthToken_cache_safe:
  "getAuthToken p ok net now s = (r, s') \<Longrightarrow> \<not> is_Resolved r \<Longrightarrow> cache_safe s' = cache_safe s"
  by (auto simp: getAuthToken_def split: option.splits if_splits dest: refresh_token_cache_safe)

text \<open>
  With the credentials set, a usable token granted on request and a cache that holds no
  unusable token, \<^verbatim>\<open>getAuthToken\<close> resolves to a usable token and leaves such a cache.
\<close>

lemma getAuthToken_usable:
  assumes cr: "credentials_complete p" and tu: "token_usable net" and cs: "cache_safe s"
  shows "\<exists>tok s'. getAuthToken p True net now s = (Resolved tok, s')
           \<and> token_safe tok \<and> cache_safe s'"
proof (cases "cache_fresh s now")
  case True
  then obtain t where t: "currentToken s = Some t"
    by (auto simp: cache_fresh_iff)
  then have "token_safe t" using cs by (simp add: cache_safe_def)
  then show ?thesis
    using getAuthToken_fresh [OF True t, of p True net] cs by simp
next
  case False
  have "token_granted net" using tu by (simp add: token_usable_def)
  with cr refresh_token_succeeds_iff [of p True net s] obtain tok s' where
    rt: "refresh_token p True net s = (Resolved tok, s')" by blast
  then show ?thesis
    using False refresh_token_usable [OF rt tu] by (simp add: getAuthToken_stale)
qed

text \<open>
  Claim C9. A call of \<^verbatim>\<open>getAuthToken\<close> that fails leaves the cache as it was: the stored
  token and the stored expiry time are those from before the call, when the call is
  rejected and also when its request never settles. With a cache that is not fresh the
  call does not resolve whenever a credential is missing, the base URL does not parse, or
  the endpoint does not grant a token (a network error, a timeout, a status other than 200
  and 201, a body that does not parse or lacks a field, a response that is cut); it is
  rejected in each of these cases but that of a request sent whose response is cut.
\<close>

theorem failed_exchange_keeps_cache:
  "(getAuthToken p ok net now s = (Rejected e, s')
      \<longrightarrow> currentToken s' = currentToken s \<and> tokenExpiryTime s' = tokenExpiryTime s)
   \<and> (getAuthToken p ok net now s = (Pending, s')
      \<longrightarrow> currentToken s' = currentToken s \<and> tokenExpiryTime s' = tokenExpiryTime s)
   \<and> (\<not> cache_fresh s now \<and> (\<not> credentials_complete p \<or> \<not> ok \<or> \<not> token_granted net)
      \<longrightarrow> \<not> is_Resolved (fst (getAuthToken p ok net now s))
        \<and> (\<not> credentials_complete p \<or> \<not> ok \<or> net \<noteq> ResponseCut
            \<longrightarrow> is_Rejected (fst (getAuthToken p ok net now s)))
        \<and> currentToken (snd (getAuthToken p ok net now s)) = currentToken s
        \<and> tokenExpiryTime (snd (getAuthToken p ok net now s)) = tokenExpiryTime s)"
proof -
  have a: "getAuthToken p ok net now s = (r, s') \<Longrightarrow> \<not> is_Resolved r
      \<Longrightarrow> currentToken s' = currentToken s \<and> tokenExpiryTime s' = tokenExpiryTime s" for r s'
    by (auto simp: getAuthToken_def split: option.splits if_splits dest: refresh_token_failure)
  have b: "\<not> is_Resolved (fst (getAuthToken p ok net now s))
      \<and> (\<not> credentials_complete p \<or> \<not> ok \<or> net \<noteq> ResponseCut
            \<longrightarrow> is_Rejected (fst (getAuthToken p ok net now s)))"
    if "\<not> cache_fresh s now" "\<not> credentials_complete p \<or> \<not> ok \<or> \<not> token_granted net"
    using that refresh_token_fails [of p ok net s] by (auto simp: getAuthToken_stale)
  have c: "\<not> is_Resolved (fst (getAuthToken p ok net now s)) \<Longrightarrow>
      currentToken (snd (getAuthToken p ok net now s)) = currentToken s
        \<and> tokenExpiryTime (snd (getAuthToken p ok net now s)) = tokenExpiryTime s"
    using a [of "fst (getAuthToken p ok net now s)" "snd (getAuthToken p ok net now s)"]
    by simp
  show ?thesis
    using a [of "Rejected e" s'] a [of Pending s'] b c by auto
qed

theorem failed_exchange_keeps_cache_witness:
  "\<not> cache_fresh (cached 1030) 1000 \<and> \<not> token_granted RequestTimedOut
   \<and> getAuthToken example_penv True RequestTimedOut 1000 (cached 1030)
      = (Rejected (AuthenticationFailed AuthRequestTimeout),
         \<lparr>currentToken = Some ''tok0'', tokenExpiryTime = 1030,
          trace = [ConsoleAuthFetching, AuthRequest (payload example_penv),
                   ConsoleAuthError AuthRequestTimeout]\<rparr>)
   \<and> currentToken (snd (getAuthToken example_penv True RequestTimedOut 1000 (cached 1030)))
       = Some ''tok0''
   \<and> tokenExpiryTime (snd (getAuthToken example_penv True RequestTimedOut 1000 (cached 1030)))
       = 1030"
proof -
  have h: "\<not> cache_fresh (cached 1030) 1000" "\<not> token_granted RequestTimedOut"
    by code_simp+
  have c: "currentToken (cached 1030) = Some ''tok0''" "tokenExpiryTime (cached 1030) = 1030"
    by (simp_all add: cached_def)
  have v: "getAuthToken example_penv True RequestTimedOut 1000 (cached 1030)
      = (Rejected (AuthenticationFailed AuthRequestTimeout),
         \<lparr>currentToken = Some ''tok0'', tokenExpiryTime = 1030,
          trace = [ConsoleAuthFetching, AuthRequest (payload example_penv),
                   ConsoleAuthError AuthRequestTimeout]\<rparr>)"
    by code_simp
  show ?thesis
    using h c v
      failed_exchange_keeps_cache [where p = example_penv and ok = True
        and net = RequestTimedOut and now = 1000 and s = "cached 1030"
        and e = "AuthenticationFailed AuthRequestTimeout"
        and s' = "\<lparr>currentToken = Some ''tok0'', tokenExpiryTime = 1030,
          trace = [ConsoleAuthFetching, AuthRequest (payload example_penv),
                   ConsoleAuthError AuthRequestTimeout]\<rparr>"]
    by simp
qed

text \<open>
  Claim C5, as the code has it. \<^verbatim>\<open>getAuthToken\<close> returns the cached token, with no request
  and no change of state but the console line, exactly when a token is cached and its
  stored expiry is more than 60 seconds after the current time. When no token is cached,
  or the cached one has 60 seconds or less left, it sends exactly one request to the
  authentication endpoint provided the six credentials are set and the base URL parses;
  with a credential missing or a base URL that does not parse it fails before any request.
\<close>

theorem token_cache_policy:
  "(currentToken s = Some t \<and> t \<noteq> [] \<and> now + 60 < tokenExpiryTime s
      \<longrightarrow> getAuthToken p ok net now s = (Resolved t, emit s ConsoleAuthCached)
        \<and> auth_requests (trace (snd (getAuthToken p ok net now s))) = auth_requests (trace s))
   \<and> ((\<exists>t. getAuthToken p ok net now s = (Resolved t, emit s ConsoleAuthCached))
      \<longleftrightarrow> (\<exists>t. currentToken s = Some t \<and> t \<noteq> [] \<and> now + 60 < tokenExpiryTime s))
   \<and> ((currentToken s = None \<or> currentToken s = Some [] \<or> tokenExpiryTime s \<le> now + 60)
        \<and> credentials_complete p \<and> ok
      \<longrightarrow> auth_requests (trace (snd (getAuthToken p ok net now s)))
            = auth_requests (trace s) @ [payload p])
   \<and> ((currentToken s = None \<or> currentToken s = Some [] \<or> tokenExpiryTime s \<le> now + 60)
        \<and> \<not> (credentials_complete p \<and> ok)
      \<longrightarrow> auth_requests (trace (snd (getAuthToken p ok net now s))) = auth_requests (trace s)
        \<and> is_Rejected (fst (getAuthToken p ok net now s)))"
proof -
  have stale_iff: "(currentToken s = None \<or> currentToken s = Some [] \<or> tokenExpiryTime s \<le> now + 60)
      \<longleftrightarrow> \<not> cache_fresh s now"
    by (cases "currentToken s") (auto simp: cache_fresh_iff)
  have hit: "getAuthToken p ok net now s = (Resolved t, emit s ConsoleAuthCached)"
    if "currentToken s = Some t" "t \<noteq> []" "now + 60 < tokenExpiryTime s" for t
    using that by (intro getAuthToken_fresh) (simp_all add: cache_fresh_iff)
  have miss: "\<not> cache_fresh s now \<Longrightarrow>
      getAuthToken p ok net now s \<noteq> (Resolved t, emit s ConsoleAuthCached)" for t
  proof
    assume st: "\<not> cache_fresh s now"
      and eq: "getAuthToken p ok net now s = (Resolved t, emit s ConsoleAuthCached)"
    obtain r s1 where f: "fetch_token p ok net (emit s ConsoleAuthFetching) = (r, s1)"
      by (cases "fetch_token p ok net (emit s ConsoleAuthFetching)")
    have "take (Suc (length (trace s))) (trace s1) = trace s @ [ConsoleAuthFetching]"
      using f
      by (auto simp: fetch_token_def Let_def
          split: option.splits completion.splits prod.splits if_splits)
    then show False
      using eq st f by (cases r) (auto simp: getAuthToken_stale refresh_token_def)
  qed
  have fails: "is_Rejected (fst (getAuthToken p ok net now s))"
    if "\<not> cache_fresh s now" "\<not> (credentials_complete p \<and> ok)"
    using that refresh_token_fails(2) [of p ok net s] by (auto simp: getAuthToken_stale)
  have c1: "currentToken s = Some t \<and> t \<noteq> [] \<and> now + 60 < tokenExpiryTime s
      \<longrightarrow> getAuthToken p ok net now s = (Resolved t, emit s ConsoleAuthCached)
        \<and> auth_requests (trace (snd (getAuthToken p ok net now s))) = auth_requests (trace s)"
    using hit [of t] by simp
  have c2: "(\<exists>t. getAuthToken p ok net now s = (Resolved t, emit s ConsoleAuthCached))
      \<longleftrightarrow> (\<exists>t. currentToken s = Some t \<and> t \<noteq> [] \<and> now + 60 < tokenExpiryTime s)"
    using hit miss unfolding cache_fresh_iff by blast
  have c3: "\<not> cache_fresh s now \<and> credentials_complete p \<and> ok
      \<longrightarrow> auth_requests (trace (snd (getAuthToken p ok net now s)))
            = auth_requests (trace s) @ [payload p]"
    by (simp add: getAuthToken_stale refresh_token_requests)
  have c4: "\<not> cache_fresh s now \<and> \<not> (credentials_complete p \<and> ok)
      \<longrightarrow> auth_requests (trace (snd (getAuthToken p ok net now s))) = auth_requests (trace s)
        \<and> is_Rejected (fst (getAuthToken p ok net now s))"
    using fails by (auto simp: getAuthToken_stale refresh_token_requests)
  show ?thesis
    unfolding stale_iff using c1 c2 c3 c4 by blast
qed

theorem token_cache_policy_witness:
  "getAuthToken example_penv True example_token 1000 (cached 1061)
     = (Resolved ''tok0'', emit (cached 1061) ConsoleAuthCached)
   \<and> auth_requests (trace (snd (getAuthToken example_penv True example_token 1000 (cached 1061))))
       = []
   \<and> auth_requests (trace (snd (getAuthToken example_penv True example_token 1000 (cached 1060))))
       = [payload example_penv]
   \<and> auth_requests (trace (snd (getAuthToken example_penv True example_token 1000 initial_state)))
       = [payload example_penv]
   \<and> auth_requests (trace (snd (getAuthToken penv_no_email True example_token 1000 initial_state)))
       = []"
proof -
  have c: "currentToken (cached 1061) = Some ''tok0''" "tokenExpiryTime (cached 1061) = 1061"
    "trace (cached 1061) = []" "tokenExpiryTime (cached 1060) = 1060" "trace (cached 1060) = []"
    "currentToken initial_state = None" "trace initial_state = []"
    by (simp_all add: cached_def initial_state_def)
  have e: "\<not> credentials_complete penv_no_email" by code_simp
  show ?thesis
    using c e example_credentials
      token_cache_policy [of "cached 1061" "''tok0''" 1000 example_penv True example_token]
      token_cache_policy [of "cached 1060" "''tok0''" 1000 example_penv True example_token]
      token_cache_policy [of initial_state "''tok0''" 1000 example_penv True example_token]
      token_cache_policy [of initial_state "''tok0''" 1000 penv_no_email True example_token]
    by simp
qed

text \<open>
  Claim C5 as stated fails: with no token cached and \<^verbatim>\<open>MY_EMAIL\<close> not set, the call fails
  on the missing variable and no request is sent, where the claim has exactly one exchange.
\<close>

theorem missing_credential_no_exchange:
  "currentToken initial_state = None
   \<and> fst (getAuthToken penv_no_email True example_token 1000 initial_state)
       = Rejected (AuthenticationFailed (MissingEnvironmentVariable ''email''))
   \<and> auth_requests (trace (snd (getAuthToken penv_no_email True example_token 1000 initial_state)))
       = []"
  by code_simp

section \<open>Properties of one attempt\<close>

lemma example_args_valid:
  "validateLogParams (Str ''Backend'') (Str ''ERROR'') (Str ''Service'') (Str ''DB connect failed'')
     = Inr True"
  by code_simp

lemma world_down_simps [simp]:
  "penv world_down = example_penv" "url_ok world_down" "auth_at world_down k = example_token"
  "log_at world_down k = RequestTimedOut"
  by (simp_all add: world_down_def)

lemma world_up_simps [simp]:
  "penv world_up = example_penv" "url_ok world_up" "auth_at world_up k = example_token"
  "log_at world_up k = example_logged"
  by (simp_all add: world_up_def world_down_def)

lemma world_third_simps [simp]:
  "penv world_third = example_penv" "url_ok world_third" "auth_at world_third k = example_token"
  "log_at world_third k = (if k < 3 then RequestError else example_logged)"
  by (simp_all add: world_third_def world_down_def)



lemma log_response_success_iff:
  "log_response net = Resolved r
     \<longleftrightarrow> (\<exists>st. net = Responded st (Some r) \<and> (st = 200 \<or> st = 201))"
  by (auto simp: log_response_def split: http_outcome.splits option.splits if_splits)

text \<open>
  \<^verbatim>\<open>#makeLogApiCall\<close> posts exactly when the URL, the timeout and the token pass the checks
  of \<^verbatim>\<open>http.request\<close>; its result is then that of the handlers.
\<close>

lemma makeLogApiCall_sent:
  "ok \<Longrightarrow> 0 \<le> timeout lg \<Longrightarrow> token_safe tok \<Longrightarrow>
     makeLogApiCall lg ok net body tok s
       = (log_response net, emit s (LogRequest body tok (timeout lg)))"
  by (simp add: makeLogApiCall_def)

lemma makeLogApiCall_unsent:
  "\<not> (ok \<and> 0 \<le> timeout lg \<and> token_safe tok) \<Longrightarrow>
     \<exists>e. makeLogApiCall lg ok net body tok s = (Rejected e, s) \<and> \<not> is_transport_error e"
  by (auto simp: makeLogApiCall_def)

lemma makeLogApiCall_cases:
  assumes "makeLogApiCall lg ok net body tok s = (r, s')"
  shows "(\<exists>e. r = Rejected e \<and> \<not> is_transport_error e \<and> s' = s)
         \<or> (r = log_response net \<and> s' = emit s (LogRequest body tok (timeout lg)))"
  using assms by (auto simp: makeLogApiCall_def split: if_splits)


text \<open>An attempt posts at most once, and what it posts is the payload of the arguments.\<close>

lemma attempt_once_posts:
  assumes "attempt_once lg w a b c d n s = (r, s')"
  shows "log_requests (trace s') = log_requests (trace s)
         \<or> (\<exists>body tok. logData a b c d = Inr body
              \<and> log_requests (trace s') = log_requests (trace s) @ [(body, tok, timeout lg)])"
  using assms
  by (auto simp: attempt_once_def
      split: sum.splits completion.splits prod.splits if_splits
      dest: getAuthToken_frame dest!: makeLogApiCall_cases)


text \<open>
  One attempt of a validated event, with a timeout that is not negative and a usable
  token at hand or granted: it posts once.
\<close>

lemma attempt_once_posting:
  assumes v: "validateLogParams a b c d = Inr True"
    and u: "url_ok w" and cr: "credentials_complete (penv w)" and tu: "token_usable (auth_at w n)"
    and cs: "cache_safe s" and tm: "0 \<le> timeout lg"
  shows "\<exists>s1. attempt_once lg w a b c d n s = (log_response (log_at w n), s1)
           \<and> cache_safe s1
           \<and> sleeps (trace s1) = sleeps (trace s)
           \<and> retry_warnings (trace s1) = retry_warnings (trace s)
           \<and> length (log_requests (trace s1)) = Suc (length (log_requests (trace s)))"
proof -
  from validate_Str_cases [OF v] obtain st l p m where
    args: "a = Str st" "b = Str l" "c = Str p" "d = Str m" by blast
  then obtain body where body: "logData a b c d = Inr body" by simp
  from getAuthToken_usable [OF cr tu cs, of "now_at w n"] u obtain tok s0 where
    tok: "getAuthToken (penv w) (url_ok w) (auth_at w n) (now_at w n) s = (Resolved tok, s0)"
    and safe: "token_safe tok" "cache_safe s0"
    by auto
  have ne: "tok \<noteq> []" using tok by (rule getAuthToken_nonempty)
  have att: "attempt_once lg w a b c d n s
      = (log_response (log_at w n), emit s0 (LogRequest body tok (timeout lg)))"
    using v body tok ne u tm safe by (simp add: attempt_once_def makeLogApiCall_sent)
  show ?thesis
    using att safe getAuthToken_frame [OF tok] by simp
qed

section \<open>Properties of the retry loop\<close>



text \<open>Every log request of a run carries the payload of the arguments.\<close>

lemma retry_payloads:
  "\<exists>toks. log_requests (trace (snd (logWithRetry lg w (Str st) (Str l) (Str p) msg n s)))
       = log_requests (trace s)
         @ map (\<lambda>tok. ([(''stack'', Str (toLowerCase st)), (''level'', Str (toLowerCase l)),
                        (''package'', Str (toLowerCase p)), (''message'', msg)], tok, timeout lg))
             toks"
proof (induction lg w "Str st" "Str l" "Str p" msg n s rule: logWithRetry.induct)
  case (1 lg w msg n s)
  let ?body = "[(''stack'', Str (toLowerCase st)), (''level'', Str (toLowerCase l)),
                (''package'', Str (toLowerCase p)), (''message'', msg)]"
  obtain r0 s1 where att: "attempt_once lg w (Str st) (Str l) (Str p) msg n s = (r0, s1)"
    by (cases "attempt_once lg w (Str st) (Str l) (Str p) msg n s")
  from attempt_once_posts [OF att] obtain toks0 where
    p0: "log_requests (trace s1)
         = log_requests (trace s) @ map (\<lambda>tok. (?body, tok, timeout lg)) toks0"
  proof
    assume "log_requests (trace s1) = log_requests (trace s)"
    then show ?thesis by (intro that [of "[]"]) simp
  next
    assume "\<exists>body tok. logData (Str st) (Str l) (Str p) msg = Inr body
              \<and> log_requests (trace s1) = log_requests (trace s) @ [(body, tok, timeout lg)]"
    then obtain tok where
      "log_requests (trace s1) = log_requests (trace s) @ [(?body, tok, timeout lg)]"
      by auto
    then show ?thesis by (intro that [of "[tok]"]) simp
  qed
  show ?case
  proof (cases r0)
    case (Resolved response)
    then have "logWithRetry lg w (Str st) (Str l) (Str p) msg n s = (Resolved response, s1)"
      using att by (subst logWithRetry.simps) simp
    then show ?thesis
      using p0 by auto
  next
    case Pending
    then have "logWithRetry lg w (Str st) (Str l) (Str p) msg n s = (Pending, s1)"
      using att by (subst logWithRetry.simps) simp
    then show ?thesis
      using p0 by auto
  next
    case (Rejected e)
    show ?thesis
    proof (cases "int n < retries lg")
      case False
      then have "logWithRetry lg w (Str st) (Str l) (Str p) msg n s
          = (Rejected e, emit s1 (ConsoleSendFailed (retries lg) e))"
        using att Rejected by (subst logWithRetry.simps) simp
      then show ?thesis
        using p0 by auto
    next
      case True
      let ?s2 = "emit (emit s1 (ConsoleRetryWarn n e)) (Sleep (1000 * n))"
      have unfold: "logWithRetry lg w (Str st) (Str l) (Str p) msg n s
          = logWithRetry lg w (Str st) (Str l) (Str p) msg (n + 1) ?s2"
        using att Rejected True by (subst logWithRetry.simps) simp
      from "1.hyps" [OF att [symmetric] Rejected True] obtain toks where
        "log_requests (trace (snd (logWithRetry lg w (Str st) (Str l) (Str p) msg (n + 1) ?s2)))
           = log_requests (trace ?s2) @ map (\<lambda>tok. (?body, tok, timeout lg)) toks"
        by blast
      then have "log_requests (trace (snd (logWithRetry lg w (Str st) (Str l) (Str p) msg n s)))
           = log_requests (trace s) @ map (\<lambda>tok. (?body, tok, timeout lg)) (toks0 @ toks)"
        unfolding unfold using p0 by simp
      then show ?thesis by blast
    qed
  qed
qed



lemma step_settled:
  assumes v: "validateLogParams a b c d = Inr True"
    and u: "url_ok w" and cr: "credentials_complete (penv w)" and tu: "token_usable (auth_at w n)"
    and cs: "cache_safe s" and tm: "0 \<le> timeout lg"
    and f: "\<not> is_Rejected (log_response (log_at w n))"
  shows "\<exists>s1. logWithRetry lg w a b c d n s = (log_response (log_at w n), s1)
           \<and> sleeps (trace s1) = sleeps (trace s)
           \<and> retry_warnings (trace s1) = retry_warnings (trace s)
           \<and> length (log_requests (trace s1)) = Suc (length (log_requests (trace s)))"
proof -
  from attempt_once_posting [OF v u cr tu cs tm] obtain s0 where
    att: "attempt_once lg w a b c d n s = (log_response (log_at w n), s0)"
    and fr: "sleeps (trace s0) = sleeps (trace s)"
      "retry_warnings (trace s0) = retry_warnings (trace s)"
      "length (log_requests (trace s0)) = Suc (length (log_requests (trace s)))"
    by blast
  have "logWithRetry lg w a b c d n s = (log_response (log_at w n), s0)"
    using att f by (subst logWithRetry.simps) (cases "log_response (log_at w n)"; simp)
  then show ?thesis
    using fr by simp
qed


lemma Log_of_success:
  "logWithRetry lg w a b c d 1 s = (Resolved r, s1) \<Longrightarrow>
     fst (Log lg w a b c d s) = Resolved (if log_id_printable r then r else JNull)
     \<and> sleeps (trace (snd (Log lg w a b c d s))) = sleeps (trace s1)
     \<and> log_requests (trace (snd (Log lg w a b c d s))) = log_requests (trace s1)"
  by (cases r) (simp_all add: Log_def get_property_def log_id_printable_def)

lemma Log_of_pending:
  "logWithRetry lg w a b c d 1 s = (Pending, s1) \<Longrightarrow> Log lg w a b c d s = (Pending, s1)"
  by (simp add: Log_def)

lemma Log_frame:
  "sleeps (trace (snd (Log lg w a b c d s))) = sleeps (trace (snd (logWithRetry lg w a b c d 1 s)))
   \<and> log_requests (trace (snd (Log lg w a b c d s)))
       = log_requests (trace (snd (logWithRetry lg w a b c d 1 s)))"
  by (auto simp: Log_def get_property_def
      split: prod.splits sum.splits completion.splits json.splits)


section \<open>The claims on the log shipper\<close>

lemma validate_server:
  "validateLogParams (Str ''server'') (Str ''info'') (Str ''config'')
       (Str ''Attempting to log from an invalid stack.'')
     = Inl (InvalidStack ''server'')"
  by code_simp

lemma default_timeout: "0 \<le> timeout (new_Logger default_config)"
  by simp

text \<open>
  Claim C1 says that a validation failure is returned at once, with no retry and no delay.
  The validation stands inside the \<^verbatim>\<open>try\<close> block whose \<^verbatim>\<open>catch\<close> retries, so the code
  does otherwise. On the call of the fourth test of \<^verbatim>\<open>test.js\<close>,
  \<^verbatim>\<open>info('server', 'config', 'Attempting to log from an invalid stack.')\<close>, in any world,
  the default logger validates three times, warns of a retry after the attempts 1 and 2,
  waits 1000 ms and 2000 ms, and \<^verbatim>\<open>Log\<close> resolves to \<^verbatim>\<open>null\<close>.
\<close>

theorem validation_failure_is_retried:
  "info_log (new_Logger default_config) w (Str ''server'') (Str ''config'')
       (Str ''Attempting to log from an invalid stack.'') initial_state
     = (Resolved JNull,
        \<lparr>currentToken = None, tokenExpiryTime = 0,
         trace = [ConsoleRetryWarn 1 (InvalidStack ''server''), Sleep 1000,
                  ConsoleRetryWarn 2 (InvalidStack ''server''), Sleep 2000,
                  ConsoleSendFailed 3 (InvalidStack ''server''),
                  ConsoleFinalFailed (InvalidStack ''server'')]\<rparr>)"
  by (simp add: info_log_def Log_def logWithRetry.simps [of _ _ "Str ''server''"] attempt_once_def
        validate_server emit_def initial_state_def
      del: validateLogParams.simps)

text \<open>
  Claim C2, as the code has it. An attempt succeeds if and only if its request is sent and
  the logging endpoint answers with status 200 or 201 and a body that parses as JSON; the
  body is not looked into. For \<^verbatim>\<open>#makeLogApiCall\<close> this holds as it is (the request is
  sent when the URL, the timeout and the token pass the checks of \<^verbatim>\<open>http.request\<close>). An
  attempt of \<^verbatim>\<open>#logWithRetry\<close> succeeds only on such an answer, and on every such answer
  when the event validates, the timeout is not negative and a usable token is at hand or
  granted. When the first attempt gets such an answer, the retry loop returns the parsed
  body after one request and no delay, whatever the body holds, and \<^verbatim>\<open>Log\<close> resolves to
  it, or to \<^verbatim>\<open>null\<close> where the body is \<^verbatim>\<open>null\<close> or its \<^verbatim>\<open>logID\<close> cannot be printed.
\<close>

theorem success_is_status_and_json:
  "((\<exists>s1. makeLogApiCall lg ok net body tok s = (Resolved r, s1))
      \<longleftrightarrow> (ok \<and> 0 \<le> timeout lg \<and> token_safe tok
           \<and> (\<exists>st. net = Responded st (Some r) \<and> (st = 200 \<or> st = 201))))
   \<and> (attempt_once lg w a b c d n s = (Resolved r, t)
      \<longrightarrow> (\<exists>st. log_at w n = Responded st (Some r) \<and> (st = 200 \<or> st = 201)))
   \<and> (validateLogParams a b c d = Inr True \<and> url_ok w \<and> credentials_complete (penv w)
        \<and> token_usable (auth_at w n) \<and> cache_safe s \<and> 0 \<le> timeout lg
      \<longrightarrow> ((\<exists>s1. attempt_once lg w a b c d n s = (Resolved r, s1))
            \<longleftrightarrow> (\<exists>st. log_at w n = Responded st (Some r) \<and> (st = 200 \<or> st = 201))))
   \<and> (validateLogParams a b c d = Inr True \<and> url_ok w \<and> credentials_complete (penv w)
        \<and> token_usable (auth_at w 1) \<and> cache_safe s \<and> 0 \<le> timeout lg
        \<and> log_at w 1 = Responded st (Some r) \<and> (st = 200 \<or> st = 201)
      \<longrightarrow> fst (logWithRetry lg w a b c d 1 s) = Resolved r
        \<and> fst (Log lg w a b c d s) = Resolved (if log_id_printable r then r else JNull)
        \<and> sleeps (trace (snd (Log lg w a b c d s))) = sleeps (trace s)
        \<and> length (log_requests (trace (snd (Log lg w a b c d s))))
            = Suc (length (log_requests (trace s))))"
proof -
  have p1: "(\<exists>s1. makeLogApiCall lg ok net body tok s = (Resolved r, s1))
      \<longleftrightarrow> (ok \<and> 0 \<le> timeout lg \<and> token_safe tok
           \<and> (\<exists>st. net = Responded st (Some r) \<and> (st = 200 \<or> st = 201)))"
    by (auto simp: makeLogApiCall_def log_response_success_iff)
  have p2: "\<exists>st. log_at w n = Responded st (Some r) \<and> (st = 200 \<or> st = 201)"
    if "attempt_once lg w a b c d n s = (Resolved r, t)"
    using that
    by (auto simp: attempt_once_def log_response_success_iff [symmetric]
        split: sum.splits completion.splits prod.splits if_splits
        dest!: makeLogApiCall_cases)
  have p3: "(\<exists>s1. attempt_once lg w a b c d n s = (Resolved r, s1))
            \<longleftrightarrow> (\<exists>st. log_at w n = Responded st (Some r) \<and> (st = 200 \<or> st = 201))"
    if v: "validateLogParams a b c d = Inr True" and u: "url_ok w"
      and cr: "credentials_complete (penv w)" and tu: "token_usable (auth_at w n)"
      and cs: "cache_safe s" and tm: "0 \<le> timeout lg"
  proof -
    from attempt_once_posting [OF v u cr tu cs tm] obtain s0 where
      "attempt_once lg w a b c d n s = (log_response (log_at w n), s0)" by blast
    then show ?thesis
      by (simp add: log_response_success_iff)
  qed
  have p4: "fst (logWithRetry lg w a b c d 1 s) = Resolved r
        \<and> fst (Log lg w a b c d s) = Resolved (if log_id_printable r then r else JNull)
        \<and> sleeps (trace (snd (Log lg w a b c d s))) = sleeps (trace s)
        \<and> length (log_requests (trace (snd (Log lg w a b c d s))))
            = Suc (length (log_requests (trace s)))"
    if v: "validateLogParams a b c d = Inr True" and u: "url_ok w"
      and cr: "credentials_complete (penv w)" and tu: "token_usable (auth_at w 1)"
      and cs: "cache_safe s" and tm: "0 \<le> timeout lg"
      and ok: "log_at w 1 = Responded st (Some r)" "st = 200 \<or> st = 201"
  proof -
    have lr: "log_response (log_at w 1) = Resolved r"
      using ok by (auto simp: log_response_success_iff)
    then have "\<not> is_Rejected (log_response (log_at w 1))" by simp
    from step_settled [OF v u cr tu cs tm this] lr obtain t1 where
      t1: "logWithRetry lg w a b c d 1 s = (Resolved r, t1)"
        "sleeps (trace t1) = sleeps (trace s)"
        "length (log_requests (trace t1)) = Suc (length (log_requests (trace s)))"
      by auto
    show ?thesis
      using Log_of_success [OF t1(1)] t1 by simp
  qed
  show ?thesis
    using p1 p2 p3 p4 by blast
qed

theorem success_is_status_and_json_witness:
  "validateLogParams (Str ''Backend'') (Str ''ERROR'') (Str ''Service'')
        (Str ''DB connect failed'') = Inr True
   \<and> token_usable (auth_at world_up 1) \<and> cache_safe initial_state
   \<and> 0 \<le> timeout (new_Logger default_config)
   \<and> log_at world_up 1 = Responded 201 (Some (JObj [(''logID'', JStr ''abc123'')]))
   \<and> fst (Log (new_Logger default_config) world_up (Str ''Backend'') (Str ''ERROR'')
        (Str ''Service'') (Str ''DB connect failed'') initial_state)
      = Resolved (JObj [(''logID'', JStr ''abc123'')])
   \<and> sleeps (trace (snd (Log (new_Logger default_config) world_up (Str ''Backend'')
        (Str ''ERROR'') (Str ''Service'') (Str ''DB connect failed'') initial_state))) = []
   \<and> length (log_requests (trace (snd (Log (new_Logger default_config) world_up
        (Str ''Backend'') (Str ''ERROR'') (Str ''Service'') (Str ''DB connect failed'')
        initial_state)))) = 1"
proof -
  have i: "trace initial_state = []" by (simp add: initial_state_def)
  have pr: "log_id_printable (JObj [(''logID'', JStr ''abc123'')])" by code_simp
  show ?thesis
    using success_is_status_and_json [where lg = "new_Logger default_config"
        and r = "JObj [(''logID'', JStr ''abc123'')]" and a = "Str ''Backend''"
        and b = "Str ''ERROR''" and c = "Str ''Service''" and d = "Str ''DB connect failed''"
        and w = world_up and s = initial_state and st = 201 and n = 1
        and ok = True and net = example_logged and tok = "''tok1''" and body = "[]"
        and t = initial_state]
      example_args_valid example_credentials example_token_usable cache_safe_initial
      default_timeout i pr
    by (simp add: example_logged_def)
qed

text \<open>
  Claim C2 as stated fails: an answer 200 whose body is the empty object has no log
  identifier, yet the attempt counts as a success; \<^verbatim>\<open>Log\<close> resolves to that body after one
  request, with no warning, no delay and no second attempt.
\<close>

theorem response_without_log_id_succeeds:
  "log_at world_no_id 1 = Responded 200 (Some (JObj []))
   \<and> get_property (JObj []) ''logID'' = Inr None
   \<and> fst (Log (new_Logger default_config) world_no_id (Str ''backend'') (Str ''error'')
        (Str ''service'') (Str ''DB connect failed'') initial_state) = Resolved (JObj [])
   \<and> sleeps (trace (snd (Log (new_Logger default_config) world_no_id (Str ''backend'')
        (Str ''error'') (Str ''service'') (Str ''DB connect failed'') initial_state))) = []
   \<and> retry_warnings (trace (snd (Log (new_Logger default_config) world_no_id (Str ''backend'')
        (Str ''error'') (Str ''service'') (Str ''DB connect failed'') initial_state))) = []
   \<and> length (log_requests (trace (snd (Log (new_Logger default_config) world_no_id
        (Str ''backend'') (Str ''error'') (Str ''service'') (Str ''DB connect failed'')
        initial_state)))) = 1"
  by code_simp




text \<open>
  Claim C4, as the code has it. For every validated event the four arguments are strings,
  and every request of the call to the logging endpoint carries the body
  \<open>{stack, level, package, message}\<close> with the stack, the level and the package lowered
  (each lowered value is a name of the taxonomy, and lowering it again changes nothing)
  and the message exactly as it was passed.
\<close>

theorem transmitted_payload:
  "validateLogParams a b c d = Inr True \<longrightarrow>
     (\<exists>stack level packageName message toks.
        a = Str stack \<and> b = Str level \<and> c = Str packageName \<and> d = Str message
        \<and> log_requests (trace (snd (Log lg w a b c d s)))
            = log_requests (trace s)
              @ map (\<lambda>tok. ([(''stack'', Str (toLowerCase stack)),
                              (''level'', Str (toLowerCase level)),
                              (''package'', Str (toLowerCase packageName)),
                              (''message'', Str message)], tok, timeout lg)) toks
        \<and> toLowerCase stack \<in> set ALLOWED_STACKS \<and> toLowerCase level \<in> set ALLOWED_LEVELS
        \<and> toLowerCase packageName \<in> set (ALLOWED_BACKEND_PACKAGES @ ALLOWED_COMMON_PACKAGES)
        \<and> toLowerCase (toLowerCase stack) = toLowerCase stack
        \<and> toLowerCase (toLowerCase level) = toLowerCase level
        \<and> toLowerCase (toLowerCase packageName) = toLowerCase packageName)"
proof
  assume v: "validateLogParams a b c d = Inr True"
  from validate_Str_cases [OF v] obtain st l p m where
    args: "a = Str st" "b = Str l" "c = Str p" "d = Str m" by blast
  from retry_payloads [of lg w st l p "Str m" 1 s] obtain toks where
    "log_requests (trace (snd (logWithRetry lg w (Str st) (Str l) (Str p) (Str m) 1 s)))
       = log_requests (trace s)
         @ map (\<lambda>tok. ([(''stack'', Str (toLowerCase st)), (''level'', Str (toLowerCase l)),
                        (''package'', Str (toLowerCase p)), (''message'', Str m)],
                       tok, timeout lg)) toks"
    by blast
  then have "log_requests (trace (snd (Log lg w a b c d s)))
       = log_requests (trace s)
         @ map (\<lambda>tok. ([(''stack'', Str (toLowerCase st)), (''level'', Str (toLowerCase l)),
                        (''package'', Str (toLowerCase p)), (''message'', Str m)],
                       tok, timeout lg)) toks"
    using Log_frame [of lg w a b c d s] by (simp add: args)
  moreover have "toLowerCase st \<in> set ALLOWED_STACKS \<and> toLowerCase l \<in> set ALLOWED_LEVELS
     \<and> toLowerCase p \<in> set (ALLOWED_BACKEND_PACKAGES @ ALLOWED_COMMON_PACKAGES)"
    using v unfolding args by (rule validate_fields)
  ultimately show "\<exists>stack level packageName message toks.
        a = Str stack \<and> b = Str level \<and> c = Str packageName \<and> d = Str message
        \<and> log_requests (trace (snd (Log lg w a b c d s)))
            = log_requests (trace s)
              @ map (\<lambda>tok. ([(''stack'', Str (toLowerCase stack)),
                              (''level'', Str (toLowerCase level)),
                              (''package'', Str (toLowerCase packageName)),
                              (''message'', Str message)], tok, timeout lg)) toks
        \<and> toLowerCase stack \<in> set ALLOWED_STACKS \<and> toLowerCase level \<in> set ALLOWED_LEVELS
        \<and> toLowerCase packageName \<in> set (ALLOWED_BACKEND_PACKAGES @ ALLOWED_COMMON_PACKAGES)
        \<and> toLowerCase (toLowerCase stack) = toLowerCase stack
        \<and> toLowerCase (toLowerCase level) = toLowerCase level
        \<and> toLowerCase (toLowerCase packageName) = toLowerCase packageName"
    using args toLowerCase_idem by blast
qed

theorem transmitted_payload_witness:
  "validateLogParams (Str ''Backend'') (Str ''ERROR'') (Str ''Service'')
        (Str ''DB connect failed'') = Inr True
   \<and> (\<exists>toks. log_requests (trace (snd (Log (new_Logger default_config) world_up
          (Str ''Backend'') (Str ''ERROR'') (Str ''Service'') (Str ''DB connect failed'')
          initial_state)))
        = map (\<lambda>tok. ([(''stack'', Str (toLowerCase ''Backend'')),
                        (''level'', Str (toLowerCase ''ERROR'')),
                        (''package'', Str (toLowerCase ''Service'')),
                        (''message'', Str ''DB connect failed'')], tok, 5000)) toks)
   \<and> toLowerCase ''Backend'' = ''backend'' \<and> toLowerCase ''ERROR'' = ''error''
   \<and> toLowerCase ''Service'' = ''service''
   \<and> length (log_requests (trace (snd (Log (new_Logger default_config) world_up
          (Str ''Backend'') (Str ''ERROR'') (Str ''Service'') (Str ''DB connect failed'')
          initial_state)))) = 1"
proof -
  have i: "trace initial_state = []" by (simp add: initial_state_def)
  have l: "toLowerCase ''Backend'' = ''backend''" "toLowerCase ''ERROR'' = ''error''"
    "toLowerCase ''Service'' = ''service''"
    by code_simp+
  have n: "length (log_requests (trace (snd (Log (new_Logger default_config) world_up
          (Str ''Backend'') (Str ''ERROR'') (Str ''Service'') (Str ''DB connect failed'')
          initial_state)))) = 1"
    by code_simp
  have "\<exists>toks. log_requests (trace (snd (Log (new_Logger default_config) world_up
          (Str ''Backend'') (Str ''ERROR'') (Str ''Service'') (Str ''DB connect failed'')
          initial_state)))
        = map (\<lambda>tok. ([(''stack'', Str (toLowerCase ''Backend'')),
                        (''level'', Str (toLowerCase ''ERROR'')),
                        (''package'', Str (toLowerCase ''Service'')),
                        (''message'', Str ''DB connect failed'')], tok, 5000)) toks"
    using transmitted_payload [of "Str ''Backend''" "Str ''ERROR''" "Str ''Service''"
        "Str ''DB connect failed''" "new_Logger default_config" world_up initial_state]
      example_args_valid i
    by auto
  then show ?thesis
    using example_args_valid l n by blast
qed

text \<open>
  Claim C4 as stated fails for the message: the message \<open>DB connect failed\<close> is sent with
  its capitals, while the three other fields are sent lowered.
\<close>

theorem message_is_sent_unlowered:
  "log_requests (trace (snd (Log (new_Logger default_config) world_up (Str ''Backend'')
        (Str ''ERROR'') (Str ''Service'') (Str ''DB connect failed'') initial_state)))
     = [([(''stack'', Str ''backend''), (''level'', Str ''error''), (''package'', Str ''service''),
          (''message'', Str ''DB connect failed'')], ''tok1'', 5000)]
   \<and> toLowerCase ''DB connect failed'' = ''db connect failed''
   \<and> Str ''DB connect failed'' \<noteq> Str (toLowerCase ''DB connect failed'')"
  by code_simp




end
